theory Spec2Isabelle
  imports Main "HOL-Library.Word" "HOL-Library.Sublist" "HOL-Library.AList"
begin

section \<open>JavaScript strings\<close>

text \<open>
  A JavaScript string is a sequence of UTF-16 code units; \<open>length\<close>, \<open>slice\<close> and
  \<open>trim\<close> all work on code units.
\<close>

type_synonym code_unit = "16 word"
type_synonym jsstring = "code_unit list"

definition ascii :: "string \<Rightarrow> jsstring" where
  "ascii s = map of_char s"

text \<open>
  \<open>String.prototype.trim\<close> strips WhiteSpace and LineTerminator code points from both
  ends: TAB, LF, VT, FF, CR, SP, NBSP, the Unicode space separators (category Zs), the
  line and paragraph separators and the byte order mark.
\<close>

definition is_js_whitespace :: "code_unit \<Rightarrow> bool" where
  "is_js_whitespace c \<longleftrightarrow>
     c \<in> set [0x0009, 0x000A, 0x000B, 0x000C, 0x000D, 0x0020, 0x00A0, 0x1680,
              0x2000, 0x2001, 0x2002, 0x2003, 0x2004, 0x2005, 0x2006, 0x2007,
              0x2008, 0x2009, 0x200A, 0x2028, 0x2029, 0x202F, 0x205F, 0x3000, 0xFEFF]"

definition js_trim :: "jsstring \<Rightarrow> jsstring" where
  "js_trim s = rev (dropWhile is_js_whitespace (rev (dropWhile is_js_whitespace s)))"

text \<open>\<open>s.slice(a, b)\<close> for non-negative \<open>a\<close>, \<open>b\<close>: both ends are clipped to the length.\<close>

definition js_slice :: "nat \<Rightarrow> nat \<Rightarrow> 'a list \<Rightarrow> 'a list" where
  "js_slice a b s = take (b - a) (drop a s)"

text \<open>\<open>s.slice(-n)\<close> for positive \<open>n\<close>: the start is \<open>max (length - n) 0\<close>.\<close>

definition js_slice_last :: "nat \<Rightarrow> 'a list \<Rightarrow> 'a list" where
  "js_slice_last n s = drop (length s - n) s"

section \<open>The repetition guard (utils.js, \<open>isRepetitive\<close>)\<close>

text \<open>
  The inner loop \<open>for (i = 0; i < threshold; i++)\<close> with its \<open>break\<close>, run over the
  indices still to visit.
\<close>

fun pattern_loop :: "nat list \<Rightarrow> nat \<Rightarrow> jsstring \<Rightarrow> jsstring \<Rightarrow> bool" where
  "pattern_loop [] len sfx pat = True"
| "pattern_loop (i # idxs) len sfx pat =
     (if js_slice (i * len) ((i + 1) * len) sfx \<noteq> pat then False
      else pattern_loop idxs len sfx pat)"

text \<open>The outer loop \<open>for (len = minPatternLen; len <= maxPatternLen; len++)\<close>.\<close>

fun len_loop :: "nat list \<Rightarrow> jsstring \<Rightarrow> bool" where
  "len_loop [] text = False"
| "len_loop (len # lens) text =
     (let threshold = (if len < 4 then 25 else 6 :: nat);
          totalLen = len * threshold
      in if length text < totalLen then len_loop lens text
         else
           let sfx = js_slice_last totalLen text;
               pat = js_slice 0 len sfx
           in if length (js_trim pat) = 0 then len_loop lens text
              else if pattern_loop [0 ..< threshold] len sfx pat then True
              else len_loop lens text)"

text \<open>What one pass of the outer loop body tests for its \<open>len\<close>.\<close>

definition len_cond :: "nat \<Rightarrow> jsstring \<Rightarrow> bool" where
  "len_cond len text \<longleftrightarrow>
     (let threshold = (if len < 4 then 25 else 6 :: nat); totalLen = len * threshold
        in \<not> length text < totalLen \<and>
           (let sfx = js_slice_last totalLen text; pat = js_slice 0 len sfx
            in length (js_trim pat) \<noteq> 0 \<and> pattern_loop [0 ..< threshold] len sfx pat))"

definition maxPatternLen :: nat where "maxPatternLen = 50"
definition minPatternLen :: nat where "minPatternLen = 1"

definition isRepetitive :: "jsstring \<Rightarrow> bool" where
  "isRepetitive text = len_loop [minPatternLen ..< Suc maxPatternLen] text"

subsection \<open>The guard as the specification words it\<close>

definition spec_threshold :: "nat \<Rightarrow> nat" where
  "spec_threshold L = (if L \<le> 3 then 25 else 6)"

definition whitespace_only :: "jsstring \<Rightarrow> bool" where
  "whitespace_only p \<longleftrightarrow> (\<forall>c \<in> set p. is_js_whitespace c)"

definition whitespace_free :: "jsstring \<Rightarrow> bool" where
  "whitespace_free p \<longleftrightarrow> (\<forall>c \<in> set p. \<not> is_js_whitespace c)"

definition spec_isRepetitive :: "jsstring \<Rightarrow> bool" where
  "spec_isRepetitive text \<longleftrightarrow>
     (\<exists>L \<in> {1 .. 50}.
        L * spec_threshold L \<le> length text \<and>
        (\<exists>p. length p = L \<and> \<not> whitespace_only p \<and>
             drop (length text - L * spec_threshold L) text
               = concat (replicate (spec_threshold L) p)))"

section \<open>The message protocol\<close>

type_synonym model_id = string

record chat_message =
  role :: string
  content :: jsstring

text \<open>
  The payload of a \<open>generate\<close> command. The sampling temperature is a floating-point
  number that the worker hands to the engine unchanged; it is left out.
\<close>

record request =
  messages :: "chat_message list"
  maxTokens :: "nat option"
  systemPrompt :: "jsstring option"

datatype command = Init model_id | Generate request | Abort | Unload | Ping

datatype event =
    WorkerReady
  | Status string string
  | Progress string nat
  | Ready model_id "string option"
  | Generating
  | Token jsstring jsstring
  | Complete jsstring "model_id option"
  | Aborted
  | Error string
  | Unloaded
  | Pong bool "model_id option"

section \<open>The worker runtime (model-worker.js, and the same code inlined as \<open>WORKER_CODE\<close>)\<close>

text \<open>
  The worker's module-level variables. \<open>generator\<close> records whether the pipeline
  object is non-null; \<open>fullResponse\<close> is the variable closed over by the streamer
  callback of the generation in flight.
\<close>

record worker =
  generator :: bool
  currentModel :: "model_id option"
  isGenerating :: bool
  shouldAbort :: bool
  fullResponse :: jsstring

text \<open>
  \<open>generate(data)\<close> up to the engine call: the two guards, then the flags and the
  \<open>generating\<close> event.
\<close>

definition worker_generate :: "request \<Rightarrow> worker \<Rightarrow> worker \<times> event list" where
  "worker_generate data w =
     (if \<not> generator w then (w, [Error ''No model loaded''])
      else if isGenerating w then (w, [Error ''Already generating''])
      else (w\<lparr>isGenerating := True, shouldAbort := False, fullResponse := []\<rparr>, [Generating]))"

text \<open>The streamer's \<open>callback_function\<close>; \<open>Inl\<close> is the message of the error it throws.\<close>

definition callback_function :: "jsstring \<Rightarrow> worker \<Rightarrow> string + worker \<times> event list" where
  "callback_function token w =
     (if shouldAbort w then Inl ''Aborted''
      else Inr (w\<lparr>fullResponse := fullResponse w @ token\<rparr>,
                [Token token (fullResponse w @ token)]))"

text \<open>
  What the engine call resolves with: \<open>result[0].generated_text\<close> is either an array of
  role/content messages or something that is not an array.
\<close>

datatype engine_result = Generated_messages "chat_message list" | Generated_other

text \<open>The backwards scan for the last \<open>assistant\<close> message, with its \<open>break\<close>.\<close>

fun last_assistant :: "chat_message list \<Rightarrow> jsstring \<Rightarrow> jsstring" where
  "last_assistant [] dflt = dflt"
| "last_assistant (m # ms) dflt =
     (if role m = ''assistant'' then content m else last_assistant ms dflt)"

definition final_content :: "engine_result \<Rightarrow> jsstring \<Rightarrow> jsstring" where
  "final_content r full =
     (case r of
        Generated_messages msgs \<Rightarrow> last_assistant (rev msgs) full
      | Generated_other \<Rightarrow> full)"

text \<open>The \<open>then\<close>, \<open>catch\<close> and \<open>finally\<close> handlers of the engine call.\<close>

definition on_fulfilled :: "engine_result \<Rightarrow> worker \<Rightarrow> event list" where
  "on_fulfilled r w = [Complete (final_content r (fullResponse w)) (currentModel w)]"

definition on_rejected :: "string \<Rightarrow> event list" where
  "on_rejected message = (if message = ''Aborted'' then [Aborted] else [Error message])"

definition on_finally :: "worker \<Rightarrow> worker" where
  "on_finally w = w\<lparr>isGenerating := False, shouldAbort := False\<rparr>"

text \<open>
  \<open>self.onmessage\<close>. An \<open>init\<close> command starts the asynchronous load chain
  (\<open>loadTransformers\<close>, \<open>pipeline\<close>); the status, progress, ready and error events of
  that chain are outside this model, which starts from a worker whose \<open>generator\<close> is
  given.
\<close>

fun onmessage :: "command \<Rightarrow> worker \<Rightarrow> worker \<times> event list" where
  "onmessage (Init m) w = (w, [])"
| "onmessage (Generate data) w = worker_generate data w"
| "onmessage Abort w = (w\<lparr>shouldAbort := True\<rparr>, [])"
| "onmessage Unload w = (w\<lparr>generator := False, currentModel := None\<rparr>, [Unloaded])"
| "onmessage Ping w = (w, [Pong (generator w) (currentModel w)])"

text \<open>
  The engine call \<open>generator(chatMessages, {streamer, ...})\<close> is an external
  collaborator. One call is described by what it does while the worker awaits it: it
  calls the streamer callback with a token (\<open>Emit\<close>), or yields to the event loop so
  that a message of the coordinator is handled (\<open>Recv\<close>); in the end its promise is
  fulfilled with a result or rejected with an error. An error thrown by the callback
  propagates through the engine and rejects the call at once. Only calls whose promise
  is settled are described: the worker has no code of its own that could end a call
  the engine never ends.
\<close>

datatype engine_step = Emit jsstring | Recv command

datatype engine_end = Fulfil engine_result | Reject string

fun run_engine :: "engine_step list \<Rightarrow> engine_end \<Rightarrow> worker \<Rightarrow> worker \<times> event list" where
  "run_engine [] (Fulfil r) w = (on_finally w, on_fulfilled r w)"
| "run_engine [] (Reject message) w = (on_finally w, on_rejected message)"
| "run_engine (Emit token # script) e w =
     (case callback_function token w of
        Inl message \<Rightarrow> (on_finally w, on_rejected message)
      | Inr (w', evs) \<Rightarrow>
          (let (w'', evs') = run_engine script e w' in (w'', evs @ evs')))"
| "run_engine (Recv c # script) e w =
     (let (w', evs) = onmessage c w;
          (w'', evs') = run_engine script e w'
      in (w'', evs @ evs'))"

text \<open>One \<open>generate\<close> command from its arrival to the end of the engine call it starts.\<close>

definition generation :: "request \<Rightarrow> engine_step list \<Rightarrow> engine_end \<Rightarrow> worker \<Rightarrow> worker \<times> event list" where
  "generation data script e w =
     (if \<not> generator w \<or> isGenerating w then worker_generate data w
      else
        let (w1, evs1) = worker_generate data w;
            (w2, evs2) = run_engine script e w1
        in (w2, evs1 @ evs2))"

subsection \<open>Reading an event stream\<close>







text \<open>\<open>n\<close> \<open>abort\<close> commands in a row.\<close>

fun abort_commands :: "nat \<Rightarrow> worker \<Rightarrow> worker \<times> event list" where
  "abort_commands 0 w = (w, [])"
| "abort_commands (Suc n) w =
     (let (w', evs) = onmessage Abort w; (w'', evs') = abort_commands n w'
      in (w'', evs @ evs'))"

section \<open>The coordinator (model-manager.js, class \<open>ModelManager\<close>)\<close>

type_synonym promise_id = nat
type_synonym worker_id = nat

text \<open>
  A promise returned by \<open>initModel\<close> or \<open>generate\<close>. Settling a promise a second
  time has no effect.
\<close>

datatype settled_value = Undefined | Text jsstring | Null

datatype promise = Pending | Resolved settled_value | Rejected string

text \<open>
  The object stored in \<open>this.callbacks\<close> for a model. \<open>initModel\<close> stores
  \<open>{resolve, reject}\<close> of the promise it returns; \<open>generate\<close> spreads the old object
  and sets \<open>onToken\<close>, \<open>onGenerating\<close>, \<open>onComplete\<close>, \<open>onAborted\<close> and \<open>onError\<close>
  to closures over its own promise and its caller's options.
\<close>

record callback_set =
  init_promise :: "promise_id option"
  gen_promise :: "promise_id option"

datatype callback_call =
    OnGenerating
  | OnToken jsstring jsstring
  | OnComplete jsstring "model_id option"
  | OnAborted
  | OnError string

datatype hook_call =
    OnStatusChange model_id string string
  | OnProgress model_id string nat
  | OnModelReady model_id "string option"
  | OnErrorHook model_id string

text \<open>Whether \<open>new Worker(url)\<close> returns or throws (with the thrown error's message).\<close>

datatype construction = Constructed | Refused string

text \<open>
  The four registries of the class, followed by what the class acts on: the workers
  created so far (a worker's identifier is its index; the entry holds the \<open>modelId\<close>
  and the promise captured by the worker's \<open>onmessage\<close> and \<open>onerror\<close> closures), the
  workers terminated, the messages posted, the promises handed out, the running
  \<open>setInterval\<close> timers of \<open>initModel\<close> (by the promise they settle), the calls made to
  the callbacks of \<open>generate\<close> callers (by the promise of the call) and the calls made to
  the global hooks.
\<close>

record manager =
  workers :: "(model_id \<times> worker_id) list"
  readyModels :: "model_id set"
  loadingModels :: "model_id set"
  callbacks :: "model_id \<rightharpoonup> callback_set"
  created :: "(model_id \<times> promise_id) list"
  terminated :: "worker_id set"
  posted :: "(worker_id \<times> command) list"
  promises :: "promise list"
  intervals :: "promise_id \<rightharpoonup> model_id"
  called :: "(promise_id \<times> callback_call) list"
  hooks :: "hook_call list"

definition new_manager :: manager where
  "new_manager =
     \<lparr>workers = [], readyModels = {}, loadingModels = {}, callbacks = Map.empty,
      created = [], terminated = {}, posted = [], promises = [],
      intervals = Map.empty, called = [], hooks = []\<rparr>"

definition new_promise :: "promise \<Rightarrow> manager \<Rightarrow> promise_id \<times> manager" where
  "new_promise v st = (length (promises st), st\<lparr>promises := promises st @ [v]\<rparr>)"

definition settle :: "promise_id \<Rightarrow> promise \<Rightarrow> manager \<Rightarrow> manager" where
  "settle p v st =
     (if p < length (promises st) \<and> promises st ! p = Pending
      then st\<lparr>promises := (promises st)[p := v]\<rparr> else st)"

definition postMessage :: "worker_id \<Rightarrow> command \<Rightarrow> manager \<Rightarrow> manager" where
  "postMessage w c st = st\<lparr>posted := posted st @ [(w, c)]\<rparr>"

definition hook :: "hook_call \<Rightarrow> manager \<Rightarrow> manager" where
  "hook h st = st\<lparr>hooks := hooks st @ [h]\<rparr>"

text \<open>\<open>this.callbacks.get(modelId) || {}\<close>\<close>

definition callbacks_of :: "manager \<Rightarrow> model_id \<Rightarrow> callback_set" where
  "callbacks_of st modelId =
     (case callbacks st modelId of
        None \<Rightarrow> \<lparr>init_promise = None, gen_promise = None\<rparr>
      | Some cbs \<Rightarrow> cbs)"

text \<open>Calling one of the five \<open>generate\<close> callbacks of a callback object, if it has them.\<close>

definition invoke :: "callback_set \<Rightarrow> callback_call \<Rightarrow> manager \<Rightarrow> manager" where
  "invoke cbs c st =
     (case gen_promise cbs of
        None \<Rightarrow> st
      | Some q \<Rightarrow> st\<lparr>called := called st @ [(q, c)]\<rparr>)"

definition settle_gen :: "callback_set \<Rightarrow> promise \<Rightarrow> manager \<Rightarrow> manager" where
  "settle_gen cbs v st = (case gen_promise cbs of None \<Rightarrow> st | Some q \<Rightarrow> settle q v st)"

definition settle_init :: "callback_set \<Rightarrow> promise \<Rightarrow> manager \<Rightarrow> manager" where
  "settle_init cbs v st = (case init_promise cbs of None \<Rightarrow> st | Some p \<Rightarrow> settle p v st)"

definition initModel :: "construction \<Rightarrow> model_id \<Rightarrow> manager \<Rightarrow> promise_id \<times> manager" where
  "initModel env modelId st =
     (if modelId \<in> readyModels st then
        new_promise (Resolved Undefined) (hook (OnModelReady modelId None) st)
      else if modelId \<in> loadingModels st then
        (let (p, st1) = new_promise Pending st
         in (p, st1\<lparr>intervals := (intervals st1)(p \<mapsto> modelId)\<rparr>))
      else
        (let st1 = st\<lparr>loadingModels := insert modelId (loadingModels st)\<rparr>;
             (p, st2) = new_promise Pending st1
         in case env of
              Refused e \<Rightarrow>
                (p, settle p (Rejected e) (st2\<lparr>loadingModels := loadingModels st2 - {modelId}\<rparr>))
            | Constructed \<Rightarrow>
                (p, st2\<lparr>created := created st2 @ [(modelId, p)],
                        workers := AList.update modelId (length (created st2)) (workers st2),
                        callbacks := (callbacks st2)
                          (modelId \<mapsto> \<lparr>init_promise = Some p, gen_promise = None\<rparr>)\<rparr>)))"

fun handleWorkerMessage :: "model_id \<Rightarrow> event \<Rightarrow> manager \<Rightarrow> manager" where
  "handleWorkerMessage modelId WorkerReady st =
     (case map_of (workers st) modelId of
        Some worker \<Rightarrow> postMessage worker (Init modelId) st
      | None \<Rightarrow> st)"
| "handleWorkerMessage modelId (Status status message) st =
     hook (OnStatusChange modelId status message) st"
| "handleWorkerMessage modelId (Progress file percent) st =
     hook (OnProgress modelId file percent) st"
| "handleWorkerMessage modelId (Ready model device) st =
     (let cbs = callbacks_of st modelId;
          st1 = st\<lparr>loadingModels := loadingModels st - {modelId}\<rparr>;
          st2 = st1\<lparr>readyModels := insert modelId (readyModels st1)\<rparr>;
          st3 = hook (OnModelReady modelId device) st2
      in settle_init cbs (Resolved Undefined) st3)"
| "handleWorkerMessage modelId Generating st =
     invoke (callbacks_of st modelId) OnGenerating st"
| "handleWorkerMessage modelId (Token token full) st =
     invoke (callbacks_of st modelId) (OnToken token full) st"
| "handleWorkerMessage modelId (Complete c model) st =
     (let cbs = callbacks_of st modelId
      in settle_gen cbs (Resolved (Text c)) (invoke cbs (OnComplete c model) st))"
| "handleWorkerMessage modelId Aborted st =
     (let cbs = callbacks_of st modelId
      in settle_gen cbs (Resolved Null) (invoke cbs OnAborted st))"
| "handleWorkerMessage modelId (Error message) st =
     (let cbs = callbacks_of st modelId;
          st1 = st\<lparr>loadingModels := loadingModels st - {modelId}\<rparr>;
          st2 = hook (OnErrorHook modelId message) st1;
          st3 = settle_gen cbs (Rejected message) (invoke cbs (OnError message) st2)
      in settle_init cbs (Rejected message) st3)"
| "handleWorkerMessage modelId Unloaded st =
     st\<lparr>readyModels := readyModels st - {modelId},
        workers := AList.delete modelId (workers st)\<rparr>"
| "handleWorkerMessage modelId (Pong r m) st = st"

text \<open>
  The \<open>onmessage\<close> closure that \<open>initModel\<close> installs on the worker it created. A
  terminated worker delivers nothing any more.
\<close>

definition worker_onmessage :: "worker_id \<Rightarrow> event \<Rightarrow> manager \<Rightarrow> manager" where
  "worker_onmessage w ev st =
     (if w < length (created st) \<and> w \<notin> terminated st
      then handleWorkerMessage (fst (created st ! w)) ev st else st)"

text \<open>The \<open>onerror\<close> closure of the same worker; it rejects the promise of its \<open>initModel\<close>.\<close>

definition worker_onerror :: "worker_id \<Rightarrow> string \<Rightarrow> manager \<Rightarrow> manager" where
  "worker_onerror w message st =
     (if w < length (created st) \<and> w \<notin> terminated st then
        (let (modelId, p) = created st ! w;
             st1 = st\<lparr>loadingModels := loadingModels st - {modelId},
                      workers := AList.delete modelId (workers st)\<rparr>;
             errorMsg = (if message = [] then ''Worker failed to load - check console for details''
                         else message)
         in settle p (Rejected errorMsg) (hook (OnErrorHook modelId errorMsg) st1))
      else st)"

text \<open>One run of the \<open>checkReady\<close> interval callback of the promise \<open>p\<close>.\<close>

definition checkReady :: "promise_id \<Rightarrow> manager \<Rightarrow> manager" where
  "checkReady p st =
     (case intervals st p of
        None \<Rightarrow> st
      | Some modelId \<Rightarrow>
          (let st1 = (if modelId \<in> readyModels st
                      then settle p (Resolved Undefined) (st\<lparr>intervals := (intervals st)(p := None)\<rparr>)
                      else st)
           in if modelId \<notin> loadingModels st1 \<and> modelId \<notin> readyModels st1
              then settle p (Rejected ''Model loading failed'')
                     (st1\<lparr>intervals := (intervals st1)(p := None)\<rparr>)
              else st1))"

definition generate :: "model_id \<Rightarrow> request \<Rightarrow> manager \<Rightarrow> promise_id \<times> manager" where
  "generate modelId req st =
     (case map_of (workers st) modelId of
        None \<Rightarrow> new_promise (Rejected (''Model '' @ modelId @ '' not initialized'')) st
      | Some worker \<Rightarrow>
          if modelId \<notin> readyModels st
          then new_promise (Rejected (''Model '' @ modelId @ '' not ready'')) st
          else
            (let (q, st1) = new_promise Pending st;
                 st2 = st1\<lparr>callbacks := (callbacks st1)
                          (modelId \<mapsto> (callbacks_of st1 modelId)\<lparr>gen_promise := Some q\<rparr>)\<rparr>
             in (q, postMessage worker (Generate req) st2)))"

definition abort :: "model_id \<Rightarrow> manager \<Rightarrow> manager" where
  "abort modelId st =
     (case map_of (workers st) modelId of
        Some worker \<Rightarrow> postMessage worker Abort st
      | None \<Rightarrow> st)"

definition abortAll :: "manager \<Rightarrow> manager" where
  "abortAll st = fold (\<lambda>(modelId, worker). postMessage worker Abort) (workers st) st"

definition unloadModel :: "model_id \<Rightarrow> manager \<Rightarrow> manager" where
  "unloadModel modelId st =
     (case map_of (workers st) modelId of
        Some worker \<Rightarrow>
          (let st1 = postMessage worker Unload st
           in st1\<lparr>terminated := insert worker (terminated st1),
                  workers := AList.delete modelId (workers st1),
                  readyModels := readyModels st1 - {modelId},
                  callbacks := (callbacks st1)(modelId := None)\<rparr>)
      | None \<Rightarrow> st)"

definition unloadAll :: "manager \<Rightarrow> manager" where
  "unloadAll st = fold unloadModel (map fst (workers st)) st"

definition isModelReady :: "model_id \<Rightarrow> manager \<Rightarrow> bool" where
  "isModelReady modelId st \<longleftrightarrow> modelId \<in> readyModels st"

definition isModelLoading :: "model_id \<Rightarrow> manager \<Rightarrow> bool" where
  "isModelLoading modelId st \<longleftrightarrow> modelId \<in> loadingModels st"

text \<open>
  Everything that can happen to a manager: a call of one of its methods, a message or
  an error event of a worker, a tick of a polling interval.
\<close>

datatype action =
    InitModel construction model_id
  | GenerateCall model_id request
  | AbortCall model_id
  | AbortAll
  | UnloadModel model_id
  | UnloadAll
  | WorkerMessage worker_id event
  | WorkerError worker_id string
  | IntervalTick promise_id

fun step :: "action \<Rightarrow> manager \<Rightarrow> manager" where
  "step (InitModel env modelId) st = snd (initModel env modelId st)"
| "step (GenerateCall modelId req) st = snd (generate modelId req st)"
| "step (AbortCall modelId) st = abort modelId st"
| "step AbortAll st = abortAll st"
| "step (UnloadModel modelId) st = unloadModel modelId st"
| "step UnloadAll st = unloadAll st"
| "step (WorkerMessage w ev) st = worker_onmessage w ev st"
| "step (WorkerError w message) st = worker_onerror w message st"
| "step (IntervalTick p) st = checkReady p st"

definition run :: "action list \<Rightarrow> manager \<Rightarrow> manager" where
  "run acts st = fold step acts st"

section \<open>The generation supervisor (app.js, \<open>generateSingleResponse\<close>)\<close>

definition TIMEOUT_MS :: nat where
  "TIMEOUT_MS = 45000"

definition timeout_message :: string where
  "timeout_message = ''Generation timed out - model stopped responding''"

definition repetition_message :: string where
  "repetition_message = ''Generation stopped due to repetitive output''"

text \<open>
  Where one call of \<open>generateSingleResponse\<close> stands: still awaiting
  \<open>modelManager.generate\<close>, or returned, with the message handed to
  \<open>ui.updateMessageError\<close> if its \<open>catch\<close> block ran.
\<close>

datatype outcome = Running | Returned "string option"

text \<open>
  The local variables of one call, the clock in milliseconds, and what the call has
  done to the outside: \<open>timer\<close> is the deadline of the pending \<open>setTimeout\<close>, if one is
  pending; \<open>abort_calls\<close> are its calls of \<open>modelManager.abort\<close>; \<open>streamed\<close> is the
  text last given to \<open>ui.updateStreamingMessage\<close>; \<open>saved\<close> the content stored by
  \<open>onComplete\<close>.
\<close>

record supervisor =
  sup_model :: model_id
  clock :: nat
  timer :: "nat option"
  timedOut :: bool
  repetitionDetected :: bool
  abort_calls :: "model_id list"
  streamed :: "jsstring option"
  saved :: "jsstring option"
  outcome :: outcome

definition resetTimeout :: "supervisor \<Rightarrow> supervisor" where
  "resetTimeout s = s\<lparr>timer := Some (clock s + TIMEOUT_MS)\<rparr>"

definition clearTimeout :: "supervisor \<Rightarrow> supervisor" where
  "clearTimeout s = s\<lparr>timer := None\<rparr>"

text \<open>The body of the \<open>setTimeout\<close> callback.\<close>

definition timeout_fires :: "supervisor \<Rightarrow> supervisor" where
  "timeout_fires s =
     s\<lparr>timer := None, timedOut := True, abort_calls := abort_calls s @ [sup_model s]\<rparr>"

text \<open>The \<open>catch\<close> block: \<open>error.message || 'Generation failed'\<close> goes to the UI.\<close>

definition catch_block :: "string \<Rightarrow> supervisor \<Rightarrow> supervisor" where
  "catch_block message s =
     (clearTimeout s)\<lparr>outcome := Returned (Some (if message = [] then ''Generation failed''
                                                 else message))\<rparr>"

text \<open>The statements after the \<open>await\<close>, run when the promise of \<open>generate\<close> resolves.\<close>

definition after_await :: "supervisor \<Rightarrow> supervisor" where
  "after_await s =
     (if timedOut s then catch_block timeout_message s
      else if repetitionDetected s then catch_block repetition_message s
      else s\<lparr>outcome := Returned None\<rparr>)"

text \<open>The \<open>onToken\<close> option.\<close>

definition onToken :: "jsstring \<Rightarrow> jsstring \<Rightarrow> supervisor \<Rightarrow> supervisor" where
  "onToken token accumulated s =
     (let s1 = resetTimeout s
      in if isRepetitive accumulated
         then (clearTimeout (s1\<lparr>repetitionDetected := True\<rparr>))
                \<lparr>abort_calls := abort_calls s1 @ [sup_model s1]\<rparr>
         else s1\<lparr>streamed := Some accumulated\<rparr>)"

text \<open>The \<open>onComplete\<close> option.\<close>

definition onComplete :: "jsstring \<Rightarrow> supervisor \<Rightarrow> supervisor" where
  "onComplete c s = (clearTimeout s)\<lparr>saved := Some c\<rparr>"

text \<open>
  What reaches a supervisor: time passes, or the coordinator runs the callbacks of the
  supervisor's \<open>generate\<close> call and settles its promise. The call passes \<open>onToken\<close>
  and \<open>onComplete\<close> only; \<open>complete\<close> and \<open>aborted\<close> resolve the promise, \<open>error\<close>
  rejects it, and the code after the \<open>await\<close> runs once, the first time the promise is
  settled. A timer that is due fires when the clock reaches its deadline.
\<close>

datatype sup_input = Elapse nat | Callback callback_call

fun supervise :: "sup_input \<Rightarrow> supervisor \<Rightarrow> supervisor" where
  "supervise (Elapse n) s =
     (let s1 = s\<lparr>clock := clock s + n\<rparr>
      in case timer s1 of
           None \<Rightarrow> s1
         | Some deadline \<Rightarrow> if deadline \<le> clock s1 then timeout_fires s1 else s1)"
| "supervise (Callback OnGenerating) s = s"
| "supervise (Callback (OnToken token accumulated)) s = onToken token accumulated s"
| "supervise (Callback (OnComplete c model)) s =
     (let s1 = onComplete c s in if outcome s = Running then after_await s1 else s1)"
| "supervise (Callback OnAborted) s = (if outcome s = Running then after_await s else s)"
| "supervise (Callback (OnError message)) s =
     (if outcome s = Running then catch_block message s else s)"

text \<open>The call up to its \<open>await\<close>: fresh locals and the first \<open>resetTimeout()\<close>.\<close>

definition generateSingleResponse :: "model_id \<Rightarrow> nat \<Rightarrow> supervisor" where
  "generateSingleResponse m now =
     resetTimeout
       \<lparr>sup_model = m, clock = now, timer = None, timedOut = False,
        repetitionDetected = False, abort_calls = [], streamed = None, saved = None,
        outcome = Running\<rparr>"

definition supervised :: "sup_input list \<Rightarrow> supervisor \<Rightarrow> supervisor" where
  "supervised ins s = fold supervise ins s"

section \<open>Dual generation (app.js, \<open>generateResponse\<close>, compare mode)\<close>










section \<open>Invariants\<close>

text \<open>No model is ready and loading at once.\<close>

definition registry_ok :: "manager \<Rightarrow> bool" where
  "registry_ok st \<longleftrightarrow> readyModels st \<inter> loadingModels st = {}"

text \<open>Every worker in the registry and every terminated worker is one that was created.\<close>

definition handles_ok :: "manager \<Rightarrow> bool" where
  "handles_ok st \<longleftrightarrow>
     (\<forall>m w. map_of (workers st) m = Some w \<longrightarrow> w < length (created st)) \<and>
     (\<forall>w \<in> terminated st. w < length (created st))"


section \<open>Sample inputs\<close>

abbreviation loaded_worker :: worker where
  "loaded_worker \<equiv>
     \<lparr>generator = True, currentModel = Some ''m1'', isGenerating = False,
      shouldAbort = False, fullResponse = []\<rparr>"

abbreviation hello :: request where
  "hello \<equiv> \<lparr>messages = [\<lparr>role = ''user'', content = ascii ''hello''\<rparr>],
             maxTokens = Some 512, systemPrompt = None\<rparr>"

abbreviation busy_worker :: worker where
  "busy_worker \<equiv>
     \<lparr>generator = True, currentModel = Some ''m1'', isGenerating = True,
      shouldAbort = False, fullResponse = ascii ''a''\<rparr>"

abbreviation first_in_flight :: "action list" where
  "first_in_flight \<equiv>
     [InitModel Constructed ''m1'',
      WorkerMessage 0 WorkerReady,
      WorkerMessage 0 (Ready ''m1'' (Some ''wasm'')),
      GenerateCall ''m1'' hello,
      WorkerMessage 0 Generating,
      WorkerMessage 0 (Token (ascii ''a'') (ascii ''a''))]"

abbreviation second_call_and_after :: "action list" where
  "second_call_and_after \<equiv>
     [GenerateCall ''m1'' hello,
      WorkerMessage 0 (Error ''Already generating''),
      WorkerMessage 0 (Token (ascii ''b'') (ascii ''ab'')),
      WorkerMessage 0 (Complete (ascii ''ab'') (Some ''m1''))]"

abbreviation ready_then_unloaded :: "action list" where
  "ready_then_unloaded \<equiv>
     [InitModel Constructed ''m1'',
      InitModel Constructed ''m1'',
      WorkerMessage 0 WorkerReady,
      WorkerMessage 0 (Ready ''m1'' (Some ''wasm'')),
      UnloadModel ''m1'',
      IntervalTick 1]"

section \<open>Properties of the repetition guard\<close>

lemma js_trim_empty: "length (js_trim p) = 0 \<longleftrightarrow> whitespace_only p"
proof -
  have "dropWhile is_js_whitespace (rev (dropWhile is_js_whitespace p)) = []
        \<longleftrightarrow> (\<forall>c \<in> set (dropWhile is_js_whitespace p). is_js_whitespace c)"
    by (auto simp: dropWhile_eq_Nil_conv dest: set_dropWhileD)
  also have "\<dots> \<longleftrightarrow> dropWhile is_js_whitespace p = []"
    using hd_dropWhile[of is_js_whitespace p] by (cases "dropWhile is_js_whitespace p") (auto dest: set_dropWhileD)
  also have "\<dots> \<longleftrightarrow> (\<forall>c \<in> set p. is_js_whitespace c)"
    by (simp add: dropWhile_eq_Nil_conv)
  finally show ?thesis by (simp add: js_trim_def whitespace_only_def)
qed

lemma blocks_concat:
  "length s = L * T \<Longrightarrow> length p = L \<Longrightarrow>
   (\<forall>i < T. take L (drop (i * L) s) = p) \<longleftrightarrow> s = concat (replicate T p)"
proof (induction T arbitrary: s)
  case 0
  then show ?case by simp
next
  case (Suc T)
  have len: "length (drop L s) = L * T" using Suc.prems by simp
  have ih: "(\<forall>i < T. take L (drop (i * L) (drop L s)) = p) \<longleftrightarrow> drop L s = concat (replicate T p)"
    using Suc.IH[OF len Suc.prems(2)] .
  have shift: "\<And>i. drop (i * L) (drop L s) = drop (Suc i * L) s"
    by (simp add: add.commute)
  show ?case
  proof
    assume a: "\<forall>i < Suc T. take L (drop (i * L) s) = p"
    from a have h0: "take L s = p" by force
    from a have "\<forall>i < T. take L (drop (Suc i * L) s) = p" by auto
    then have "\<forall>i < T. take L (drop (i * L) (drop L s)) = p"
      unfolding shift .
    with ih have "drop L s = concat (replicate T p)" by simp
    with h0 have "take L s @ drop L s = p @ concat (replicate T p)" by simp
    then show "s = concat (replicate (Suc T) p)" by simp
  next
    assume b: "s = concat (replicate (Suc T) p)"
    then have s: "s = p @ concat (replicate T p)" by simp
    with Suc.prems(2) have h0: "take L s = p" and d: "drop L s = concat (replicate T p)" by auto
    from d ih have r: "\<forall>i < T. take L (drop (i * L) (drop L s)) = p" by simp
    show "\<forall>i < Suc T. take L (drop (i * L) s) = p"
    proof (intro allI impI)
      fix i assume iT: "i < Suc T"
      show "take L (drop (i * L) s) = p"
      proof (cases i)
        case 0 then show ?thesis using h0 by simp
      next
        case (Suc j)
        then have "j < T" using iT by simp
        with r have "take L (drop (j * L) (drop L s)) = p" by simp
        then show ?thesis unfolding shift Suc .
      qed
    qed
  qed
qed

lemma pattern_loop_all:
  "pattern_loop idxs len sfx pat \<longleftrightarrow>
     (\<forall>i \<in> set idxs. js_slice (i * len) ((i + 1) * len) sfx = pat)"
  by (induction idxs) auto

lemma len_loop_step:
  "len_loop (len # lens) text \<longleftrightarrow> len_cond len text \<or> len_loop lens text"
  unfolding len_cond_def len_loop.simps Let_def by (simp only: split: if_splits) blast

lemma len_loop_ex:
  "len_loop lens text \<longleftrightarrow> (\<exists>len \<in> set lens. len_cond len text)"
  by (induction lens) (simp_all add: len_loop_step del: len_loop.simps(2))

lemma len_cond_spec:
  assumes L: "1 \<le> L"
  shows "len_cond L text \<longleftrightarrow>
     (L * spec_threshold L \<le> length text \<and>
        (\<exists>p. length p = L \<and> \<not> whitespace_only p \<and>
             drop (length text - L * spec_threshold L) text
               = concat (replicate (spec_threshold L) p)))"
proof -
  define T where "T = spec_threshold L"
  define sfx where "sfx = drop (length text - L * T) text"
  have T: "T = (if L < 4 then 25 else 6)" "1 \<le> T"
    by (auto simp: T_def spec_threshold_def)
  have unfold: "len_cond L text \<longleftrightarrow>
      (L * T \<le> length text \<and> \<not> whitespace_only (take L sfx) \<and>
       (\<forall>i < T. take L (drop (i * L) sfx) = take L sfx))"
    unfolding len_cond_def Let_def pattern_loop_all js_trim_empty js_slice_def js_slice_last_def
      sfx_def T(1)
    by (auto simp: not_less)
  show ?thesis unfolding T_def[symmetric] sfx_def[symmetric] unfold
  proof (intro conj_cong refl)
    assume fit: "L * T \<le> length text"
    then have len: "length sfx = L * T" by (simp add: sfx_def)
    have lp: "length (take L sfx) = L" using len T(2) L by (simp add: min_def)
    show "(\<not> whitespace_only (take L sfx) \<and> (\<forall>i < T. take L (drop (i * L) sfx) = take L sfx))
          \<longleftrightarrow> (\<exists>p. length p = L \<and> \<not> whitespace_only p \<and> sfx = concat (replicate T p))"
    proof
      assume a: "\<not> whitespace_only (take L sfx) \<and> (\<forall>i < T. take L (drop (i * L) sfx) = take L sfx)"
      then have "sfx = concat (replicate T (take L sfx))"
        using blocks_concat[OF len lp] by simp
      with a lp show "\<exists>p. length p = L \<and> \<not> whitespace_only p \<and> sfx = concat (replicate T p)"
        by blast
    next
      assume "\<exists>p. length p = L \<and> \<not> whitespace_only p \<and> sfx = concat (replicate T p)"
      then obtain p where p: "length p = L" "\<not> whitespace_only p" "sfx = concat (replicate T p)"
        by blast
      obtain T' where T': "T = Suc T'" using T(2) by (cases T) auto
      have "take L sfx = p" using p(1,3) by (simp add: T')
      moreover have "\<forall>i < T. take L (drop (i * L) sfx) = p"
        using blocks_concat[OF len p(1)] p(3) by simp
      ultimately show "\<not> whitespace_only (take L sfx) \<and> (\<forall>i < T. take L (drop (i * L) sfx) = take L sfx)"
        using p(2) by simp
    qed
  qed
qed

lemma isRepetitive_iff_spec: "isRepetitive text \<longleftrightarrow> spec_isRepetitive text"
proof -
  have "isRepetitive text \<longleftrightarrow> (\<exists>L \<in> {1 .. 50}. len_cond L text)"
    by (auto simp: isRepetitive_def len_loop_ex minPatternLen_def maxPatternLen_def)
  also have "\<dots> \<longleftrightarrow> spec_isRepetitive text"
    unfolding spec_isRepetitive_def
    by (intro bex_cong refl len_cond_spec) simp
  finally show ?thesis .
qed

lemma four_char_token_spec:
  assumes "length tok = 4" "whitespace_free tok"
  shows "spec_isRepetitive (pre @ concat (replicate 8 tok))"
proof -
  have nw: "\<not> whitespace_only tok"
    using assms by (cases tok) (auto simp: whitespace_only_def whitespace_free_def)
  have "replicate 8 tok = [tok, tok] @ replicate 6 tok"
    by (simp add: numeral_eq_Suc)
  then have c: "concat (replicate 8 tok) = (tok @ tok) @ concat (replicate 6 tok)"
    by simp
  have l6: "length (concat (replicate 6 tok)) = 24"
    using assms(1) by (simp add: length_concat sum_list_replicate)
  have "drop (length (pre @ concat (replicate 8 tok)) - 24) (pre @ concat (replicate 8 tok))
        = concat (replicate 6 tok)"
    using assms(1) l6 unfolding c by simp
  moreover have "24 \<le> length (pre @ concat (replicate 8 tok))"
    using l6 unfolding c by simp
  ultimately show ?thesis
    unfolding spec_isRepetitive_def using assms(1) nw
    by (intro bexI[of _ 4]) (auto simp: spec_threshold_def)
qed

text \<open>
  Claim C2. \<open>isRepetitive text\<close> is true exactly when, for some pattern length \<open>L\<close>
  from 1 to 50, the text has at least \<open>L * T\<close> code units and its last \<open>L * T\<close> code
  units are one pattern of length \<open>L\<close>, not whitespace-only, repeated \<open>T\<close> times back to
  back, with \<open>T = 25\<close> for \<open>L \<le> 3\<close> and \<open>T = 6\<close> for \<open>L \<ge> 4\<close>. In particular every text
  that ends in a whitespace-free token of four code units repeated eight times trips the
  guard.
\<close>

theorem isRepetitive_refines_spec:
  "(isRepetitive text \<longleftrightarrow> spec_isRepetitive text) \<and>
   (length tok = 4 \<and> whitespace_free tok \<longrightarrow>
      isRepetitive (pre @ concat (replicate 8 tok)))"
  using isRepetitive_iff_spec four_char_token_spec by blast

theorem isRepetitive_refines_spec_witness:
  "length (ascii ''abcd'') = 4 \<and> whitespace_free (ascii ''abcd'') \<and>
   isRepetitive (ascii ''The answer is '' @ concat (replicate 8 (ascii ''abcd''))) \<and>
   spec_isRepetitive (ascii ''The answer is '' @ concat (replicate 8 (ascii ''abcd'')))"
proof -
  have h: "length (ascii ''abcd'') = 4 \<and> whitespace_free (ascii ''abcd'')"
    by (simp add: ascii_def whitespace_free_def is_js_whitespace_def)
  show ?thesis
    using h isRepetitive_refines_spec[of "ascii ''The answer is '' @ concat (replicate 8 (ascii ''abcd''))"
        "ascii ''abcd''" "ascii ''The answer is ''"]
    by blast
qed

section \<open>Properties of the worker runtime\<close>

lemma run_engine_Emit:
  "run_engine (Emit token # script) e w =
     (if shouldAbort w then (on_finally w, on_rejected ''Aborted'')
      else (fst (run_engine script e (w\<lparr>fullResponse := fullResponse w @ token\<rparr>)),
            Token token (fullResponse w @ token)
              # snd (run_engine script e (w\<lparr>fullResponse := fullResponse w @ token\<rparr>))))"
  by (simp add: callback_function_def case_prod_beta)

lemma run_engine_Recv:
  "run_engine (Recv c # script) e w =
     (fst (run_engine script e (fst (onmessage c w))),
      snd (onmessage c w) @ snd (run_engine script e (fst (onmessage c w))))"
  by (simp add: case_prod_beta)





lemma run_engine_idle:
  "isGenerating (fst (run_engine script e w)) = False \<and> shouldAbort (fst (run_engine script e w)) = False"
proof (induction script arbitrary: w)
  case Nil
  then show ?case by (cases e) (simp_all add: on_finally_def)
next
  case (Cons s script)
  then show ?case
    by (cases s) (simp_all add: run_engine_Emit run_engine_Recv on_finally_def del: run_engine.simps)
qed



lemma generation_accepted:
  "generator w \<Longrightarrow> \<not> isGenerating w \<Longrightarrow>
   generation data script e w =
     (fst (run_engine script e (w\<lparr>isGenerating := True, shouldAbort := False, fullResponse := []\<rparr>)),
      Generating # snd (run_engine script e (w\<lparr>isGenerating := True, shouldAbort := False, fullResponse := []\<rparr>)))"
  by (simp add: generation_def worker_generate_def case_prod_beta)

lemma generation_refused:
  "\<not> generator w \<or> isGenerating w \<Longrightarrow>
   generation data script e w =
     (w, [Error (if \<not> generator w then ''No model loaded'' else ''Already generating'')])"
  by (auto simp: generation_def worker_generate_def)







section \<open>Aborting an idle worker\<close>

lemma abort_commands_eq:
  "abort_commands n w = ((if n = 0 then w else w\<lparr>shouldAbort := True\<rparr>), [])"
  by (induction n arbitrary: w) (auto simp: case_prod_beta)

lemma run_abort_calls:
  "run (replicate n (AbortCall modelId)) st =
     st\<lparr>posted := posted st @
          (case map_of (workers st) modelId of
             None \<Rightarrow> []
           | Some worker \<Rightarrow> replicate n (worker, Abort))\<rparr>"
proof (induction n arbitrary: st)
  case 0
  then show ?case by (simp add: run_def split: option.splits)
next
  case (Suc n)
  have "run (replicate (Suc n) (AbortCall modelId)) st
        = run (replicate n (AbortCall modelId)) (abort modelId st)"
    by (simp add: run_def)
  also have "\<dots> = st\<lparr>posted := posted st @
          (case map_of (workers st) modelId of
             None \<Rightarrow> []
           | Some worker \<Rightarrow> replicate (Suc n) (worker, Abort))\<rparr>"
    unfolding Suc.IH
    by (simp add: abort_def postMessage_def replicate_append_same split: option.splits)
  finally show ?case .
qed

text \<open>
  Claim C8. Any number of \<open>abort\<close> calls for a model whose worker is idle (never
  started, or back from a generation that has emitted its terminal event) do not throw
  and change nothing that counts: the coordinator only posts \<open>abort\<close> messages to the
  worker of that model, if there is one, and leaves its registries and promises alone;
  the worker emits no event and stays idle; and the next generation emits the same
  events and ends in the same state as without the aborts, because the abort flag is
  cleared when a generation starts and again when it ends.
\<close>

theorem idle_abort_is_noop:
  assumes "\<not> isGenerating w"
  shows "snd (abort_commands n w) = [] \<and>
         \<not> isGenerating (fst (abort_commands n w)) \<and>
         snd (generation data script e (fst (abort_commands n w)))
           = snd (generation data script e w) \<and>
         (generator w \<longrightarrow>
            fst (generation data script e (fst (abort_commands n w)))
              = fst (generation data script e w) \<and>
            \<not> shouldAbort (fst (worker_generate data (fst (abort_commands n w)))) \<and>
            \<not> shouldAbort (fst (generation data script e w)) \<and>
            \<not> isGenerating (fst (generation data script e w))) \<and>
         run (replicate n (AbortCall modelId)) st =
           st\<lparr>posted := posted st @
                (case map_of (workers st) modelId of
                   None \<Rightarrow> []
                 | Some worker \<Rightarrow> replicate n (worker, Abort))\<rparr>"
proof -
  have a: "snd (abort_commands n w) = []" "\<not> isGenerating (fst (abort_commands n w))"
    using assms by (simp_all add: abort_commands_eq)
  have b: "generation data script e (fst (abort_commands n w)) = generation data script e w"
    if "generator w"
    using that assms by (simp add: abort_commands_eq generation_accepted)
  have c: "snd (generation data script e (fst (abort_commands n w)))
           = snd (generation data script e w)"
  proof (cases "generator w")
    case True
    then show ?thesis by (simp add: b)
  next
    case False
    then show ?thesis by (simp add: abort_commands_eq generation_refused)
  qed
  have d: "\<not> shouldAbort (fst (worker_generate data (fst (abort_commands n w))))"
    if "generator w"
    using that assms by (simp add: abort_commands_eq worker_generate_def)
  have f: "\<not> shouldAbort (fst (generation data script e w)) \<and>
           \<not> isGenerating (fst (generation data script e w))"
    if "generator w"
    using that assms run_engine_idle by (simp add: generation_accepted)
  show ?thesis using a b c d f run_abort_calls by simp
qed

theorem idle_abort_is_noop_witness:
  "\<not> isGenerating loaded_worker \<and> generator loaded_worker \<and>
   snd (abort_commands 3 loaded_worker) = [] \<and>
   fst (abort_commands 3 loaded_worker) = loaded_worker\<lparr>shouldAbort := True\<rparr> \<and>
   generation hello [Emit (ascii ''Hi'')] (Fulfil Generated_other) (fst (abort_commands 3 loaded_worker))
     = generation hello [Emit (ascii ''Hi'')] (Fulfil Generated_other) loaded_worker \<and>
   snd (generation hello [Emit (ascii ''Hi'')] (Fulfil Generated_other) loaded_worker)
     = [Generating, Token (ascii ''Hi'') (ascii ''Hi''), Complete (ascii ''Hi'') (Some ''m1'')]"
proof -
  have h: "\<not> isGenerating loaded_worker" by simp
  have g: "generator loaded_worker" by simp
  have w3: "fst (abort_commands 3 loaded_worker) = loaded_worker\<lparr>shouldAbort := True\<rparr>"
    by (simp add: numeral_3_eq_3)
  have ev: "snd (generation hello [Emit (ascii ''Hi'')] (Fulfil Generated_other) loaded_worker)
     = [Generating, Token (ascii ''Hi'') (ascii ''Hi''), Complete (ascii ''Hi'') (Some ''m1'')]"
    by (simp add: generation_def worker_generate_def callback_function_def on_fulfilled_def
        on_finally_def final_content_def)
  from idle_abort_is_noop[OF h, of 3 hello "[Emit (ascii ''Hi'')]" "Fulfil Generated_other"
      "''m1''" new_manager]
  have "snd (abort_commands 3 loaded_worker) = []"
    and "snd (generation hello [Emit (ascii ''Hi'')] (Fulfil Generated_other)
               (fst (abort_commands 3 loaded_worker)))
         = snd (generation hello [Emit (ascii ''Hi'')] (Fulfil Generated_other) loaded_worker)"
    and "fst (generation hello [Emit (ascii ''Hi'')] (Fulfil Generated_other)
               (fst (abort_commands 3 loaded_worker)))
         = fst (generation hello [Emit (ascii ''Hi'')] (Fulfil Generated_other) loaded_worker)"
    using g by blast+
  then show ?thesis using h g w3 ev by (simp add: prod_eq_iff)
qed

section \<open>Properties of the coordinator\<close>

lemma sets_settle [simp]:
  "readyModels (settle p v st) = readyModels st"
  "loadingModels (settle p v st) = loadingModels st"
  by (simp_all add: settle_def)

lemma sets_postMessage [simp]:
  "readyModels (postMessage w c st) = readyModels st"
  "loadingModels (postMessage w c st) = loadingModels st"
  by (simp_all add: postMessage_def)

lemma sets_hook [simp]:
  "readyModels (hook h st) = readyModels st"
  "loadingModels (hook h st) = loadingModels st"
  by (simp_all add: hook_def)

lemma sets_invoke [simp]:
  "readyModels (invoke cbs c st) = readyModels st"
  "loadingModels (invoke cbs c st) = loadingModels st"
  by (simp_all add: invoke_def split: option.splits)

lemma sets_settle_gen [simp]:
  "readyModels (settle_gen cbs v st) = readyModels st"
  "loadingModels (settle_gen cbs v st) = loadingModels st"
  by (simp_all add: settle_gen_def split: option.splits)

lemma sets_settle_init [simp]:
  "readyModels (settle_init cbs v st) = readyModels st"
  "loadingModels (settle_init cbs v st) = loadingModels st"
  by (simp_all add: settle_init_def split: option.splits)

lemma sets_new_promise [simp]:
  "readyModels (snd (new_promise v st)) = readyModels st"
  "loadingModels (snd (new_promise v st)) = loadingModels st"
  by (simp_all add: new_promise_def)

lemma registry_ok_initModel:
  "registry_ok st \<Longrightarrow> registry_ok (snd (initModel env modelId st))"
  by (cases env) (auto simp: registry_ok_def initModel_def Let_def case_prod_beta)

lemma registry_ok_handleWorkerMessage:
  "registry_ok st \<Longrightarrow> registry_ok (handleWorkerMessage modelId ev st)"
  by (cases ev) (auto simp: registry_ok_def Let_def split: option.splits)

lemma registry_ok_worker_onmessage:
  "registry_ok st \<Longrightarrow> registry_ok (worker_onmessage w ev st)"
  by (simp add: worker_onmessage_def registry_ok_handleWorkerMessage)

lemma registry_ok_worker_onerror:
  "registry_ok st \<Longrightarrow> registry_ok (worker_onerror w message st)"
  by (auto simp: registry_ok_def worker_onerror_def Let_def case_prod_beta)

lemma registry_ok_checkReady:
  "registry_ok st \<Longrightarrow> registry_ok (checkReady p st)"
  by (auto simp: registry_ok_def checkReady_def Let_def split: option.splits)

lemma registry_ok_generate:
  "registry_ok st \<Longrightarrow> registry_ok (snd (generate modelId req st))"
  by (auto simp: registry_ok_def generate_def Let_def case_prod_beta split: option.splits)

lemma registry_ok_abort:
  "registry_ok st \<Longrightarrow> registry_ok (abort modelId st)"
  by (auto simp: registry_ok_def abort_def split: option.splits)

lemma sets_fold_post:
  "readyModels (fold (\<lambda>(modelId, worker). postMessage worker Abort) ws st) = readyModels st \<and>
   loadingModels (fold (\<lambda>(modelId, worker). postMessage worker Abort) ws st) = loadingModels st"
  by (induction ws arbitrary: st) (auto simp: case_prod_beta)

lemma registry_ok_abortAll:
  "registry_ok st \<Longrightarrow> registry_ok (abortAll st)"
  by (simp add: registry_ok_def abortAll_def sets_fold_post)

lemma registry_ok_unloadModel:
  "registry_ok st \<Longrightarrow> registry_ok (unloadModel modelId st)"
  by (auto simp: registry_ok_def unloadModel_def Let_def split: option.splits)

lemma registry_ok_fold_unload:
  "registry_ok st \<Longrightarrow> registry_ok (fold unloadModel ms st)"
  by (induction ms arbitrary: st) (simp_all add: registry_ok_unloadModel)

lemma registry_ok_unloadAll:
  "registry_ok st \<Longrightarrow> registry_ok (unloadAll st)"
  by (simp add: unloadAll_def registry_ok_fold_unload)

lemma registry_ok_step:
  "registry_ok st \<Longrightarrow> registry_ok (step a st)"
  by (cases a)
     (simp_all add: registry_ok_initModel registry_ok_generate registry_ok_abort
        registry_ok_abortAll registry_ok_unloadModel registry_ok_unloadAll
        registry_ok_worker_onmessage registry_ok_worker_onerror registry_ok_checkReady)

lemma registry_ok_run:
  "registry_ok st \<Longrightarrow> registry_ok (run acts st)"
  unfolding run_def by (induction acts arbitrary: st) (simp_all add: registry_ok_step)

text \<open>
  Claim C10. After any sequence of \<open>ModelManager\<close> calls, worker messages, worker
  errors and polling ticks, starting from a new manager, no model identifier is in
  \<open>readyModels\<close> and in \<open>loadingModels\<close> at once, so \<open>isModelReady\<close> and
  \<open>isModelLoading\<close> never both return true.
\<close>

theorem ready_and_loading_disjoint:
  "readyModels (run acts new_manager) \<inter> loadingModels (run acts new_manager) = {} \<and>
   \<not> (isModelReady modelId (run acts new_manager) \<and>
      isModelLoading modelId (run acts new_manager))"
proof -
  have "registry_ok new_manager" by (simp add: registry_ok_def new_manager_def)
  then have "registry_ok (run acts new_manager)" by (rule registry_ok_run)
  then show ?thesis by (auto simp: registry_ok_def isModelReady_def isModelLoading_def)
qed

text \<open>
  Claim C9. For a model identifier with no registered worker, \<open>generate\<close> returns a
  promise that is already rejected with the "not initialized" error; it posts no
  message, calls no callback and leaves every registry as it was.
\<close>

theorem generate_before_initModel:
  assumes "map_of (workers st) modelId = None"
  shows "promises (snd (generate modelId req st)) ! fst (generate modelId req st)
           = Rejected (''Model '' @ modelId @ '' not initialized'') \<and>
         snd (generate modelId req st)
           = st\<lparr>promises := promises st
                   @ [Rejected (''Model '' @ modelId @ '' not initialized'')]\<rparr> \<and>
         posted (snd (generate modelId req st)) = posted st \<and>
         called (snd (generate modelId req st)) = called st \<and>
         workers (snd (generate modelId req st)) = workers st \<and>
         readyModels (snd (generate modelId req st)) = readyModels st \<and>
         loadingModels (snd (generate modelId req st)) = loadingModels st \<and>
         callbacks (snd (generate modelId req st)) = callbacks st"
  using assms by (simp add: generate_def new_promise_def)

theorem generate_before_initModel_witness:
  "map_of (workers new_manager) ''m1'' = None \<and>
   generate ''m1'' hello new_manager
     = (0, new_manager\<lparr>promises := [Rejected ''Model m1 not initialized'']\<rparr>) \<and>
   posted (snd (generate ''m1'' hello new_manager)) = []"
proof -
  have h: "map_of (workers new_manager) ''m1'' = None" by (simp add: new_manager_def)
  have f: "fst (generate ''m1'' hello new_manager) = 0"
    by (simp add: generate_def new_promise_def new_manager_def)
  from generate_before_initModel[OF h, of hello]
  have "snd (generate ''m1'' hello new_manager)
          = new_manager\<lparr>promises := promises new_manager @ [Rejected (''Model '' @ ''m1'' @ '' not initialized'')]\<rparr>"
    and "posted (snd (generate ''m1'' hello new_manager)) = posted new_manager"
    by blast+
  then show ?thesis using h f by (simp add: prod_eq_iff new_manager_def)
qed

section \<open>Concurrent calls of the coordinator\<close>

lemmas manager_defs =
  initModel_def new_promise_def worker_onmessage_def worker_onerror_def postMessage_def
  callbacks_of_def hook_def settle_init_def settle_gen_def settle_def generate_def
  invoke_def checkReady_def unloadModel_def abort_def

lemma first_in_flight_state:
  "run first_in_flight new_manager =
     \<lparr>workers = [(''m1'', 0)], readyModels = {''m1''}, loadingModels = {},
      callbacks = [''m1'' \<mapsto> \<lparr>init_promise = Some 0, gen_promise = Some 1\<rparr>],
      created = [(''m1'', 0)], terminated = {},
      posted = [(0, Init ''m1''), (0, Generate hello)],
      promises = [Resolved Undefined, Pending],
      intervals = Map.empty,
      called = [(1, OnGenerating), (1, OnToken (ascii ''a'') (ascii ''a''))],
      hooks = [OnModelReady ''m1'' (Some ''wasm'')]\<rparr>"
  by (simp add: run_def new_manager_def manager_defs)

text \<open>
  Claim C1 against the code. The first generation for \<open>m1\<close> is in flight (promise 1,
  one token delivered) when \<open>generate\<close> is called again for \<open>m1\<close>. The second call does
  not fail at once: it returns a pending promise 2, replaces the callback object of the
  first call by its own and posts a second \<open>generate\<close> message. The worker answers that
  message with the error \<open>Already generating\<close>, which rejects promise 2; the remaining
  token and the \<open>complete\<close> event of the first generation are then handed to the
  callbacks of the second call, and promise 1 is never settled.
\<close>

theorem second_generate_disturbs_first:
  "generate ''m1'' hello (run first_in_flight new_manager) =
     (2, (run first_in_flight new_manager)
           \<lparr>promises := [Resolved Undefined, Pending, Pending],
            callbacks := [''m1'' \<mapsto> \<lparr>init_promise = Some 0, gen_promise = Some 2\<rparr>],
            posted := [(0, Init ''m1''), (0, Generate hello), (0, Generate hello)]\<rparr>) \<and>
   onmessage (Generate hello) busy_worker = (busy_worker, [Error ''Already generating'']) \<and>
   promises (run (first_in_flight @ second_call_and_after) new_manager)
     = [Resolved Undefined, Pending, Rejected ''Already generating''] \<and>
   called (run (first_in_flight @ second_call_and_after) new_manager)
     = [(1, OnGenerating), (1, OnToken (ascii ''a'') (ascii ''a'')),
        (2, OnError ''Already generating''), (2, OnToken (ascii ''b'') (ascii ''ab'')),
        (2, OnComplete (ascii ''ab'') (Some ''m1''))]"
proof -
  have split: "run (first_in_flight @ second_call_and_after) new_manager
        = run second_call_and_after (run first_in_flight new_manager)"
    by (simp only: run_def fold_append comp_apply)
  have a: "generate ''m1'' hello (run first_in_flight new_manager) =
     (2, (run first_in_flight new_manager)
           \<lparr>promises := [Resolved Undefined, Pending, Pending],
            callbacks := [''m1'' \<mapsto> \<lparr>init_promise = Some 0, gen_promise = Some 2\<rparr>],
            posted := [(0, Init ''m1''), (0, Generate hello), (0, Generate hello)]\<rparr>)"
    unfolding first_in_flight_state by (simp add: manager_defs numeral_2_eq_2)
  have b: "onmessage (Generate hello) busy_worker = (busy_worker, [Error ''Already generating''])"
    by (simp add: worker_generate_def)
  have c: "promises (run (first_in_flight @ second_call_and_after) new_manager)
     = [Resolved Undefined, Pending, Rejected ''Already generating'']"
    unfolding split first_in_flight_state by (simp add: run_def manager_defs)
  have d: "called (run (first_in_flight @ second_call_and_after) new_manager)
     = [(1, OnGenerating), (1, OnToken (ascii ''a'') (ascii ''a'')),
        (2, OnError ''Already generating''), (2, OnToken (ascii ''b'') (ascii ''ab'')),
        (2, OnComplete (ascii ''ab'') (Some ''m1''))]"
    unfolding split first_in_flight_state by (simp add: run_def manager_defs)
  show ?thesis using a b c d by simp
qed

text \<open>
  Claim C5, as stated, fails: the second call does not share the outcome of the first
  but polls the registry every 100 ms. When the model becomes ready, which resolves the
  first call, and is unloaded before the next poll, the poll finds the model neither
  ready nor loading and rejects the second call. One worker was created.
\<close>

theorem initModel_twice_outcomes_differ:
  "promises (run ready_then_unloaded new_manager)
     = [Resolved Undefined, Rejected ''Model loading failed''] \<and>
   length (created (run ready_then_unloaded new_manager)) = 1"
  by (simp add: run_def new_manager_def manager_defs)

lemma handles_ok_initModel:
  "handles_ok st \<Longrightarrow> handles_ok (snd (initModel env modelId st))"
  by (cases env)
     (auto simp: handles_ok_def initModel_def new_promise_def settle_def hook_def Let_def
        update_conv' less_Suc_eq dest: less_SucI)

lemma handles_ok_handleWorkerMessage:
  "handles_ok st \<Longrightarrow> handles_ok (handleWorkerMessage modelId ev st)"
  by (cases ev)
     (auto simp: handles_ok_def postMessage_def hook_def settle_init_def settle_gen_def
        settle_def invoke_def Let_def delete_conv' split: option.splits if_splits)

lemma handles_ok_worker_onerror:
  "handles_ok st \<Longrightarrow> handles_ok (worker_onerror w message st)"
  by (auto simp: handles_ok_def worker_onerror_def hook_def settle_def Let_def case_prod_beta
        delete_conv' split: if_splits)

lemma handles_ok_checkReady:
  "handles_ok st \<Longrightarrow> handles_ok (checkReady p st)"
  by (auto simp: handles_ok_def checkReady_def settle_def Let_def split: option.splits)

lemma handles_ok_generate:
  "handles_ok st \<Longrightarrow> handles_ok (snd (generate modelId req st))"
  by (auto simp: handles_ok_def generate_def new_promise_def postMessage_def Let_def
        split: option.splits)

lemma handles_ok_abort:
  "handles_ok st \<Longrightarrow> handles_ok (abort modelId st)"
  by (auto simp: handles_ok_def abort_def postMessage_def split: option.splits)

lemma handles_ok_fold_post:
  "handles_ok st \<Longrightarrow> handles_ok (fold (\<lambda>(modelId, worker). postMessage worker Abort) ws st)"
proof (induction ws arbitrary: st)
  case Nil
  then show ?case by simp
next
  case (Cons x ws)
  have "handles_ok (postMessage (snd x) Abort st)"
    using Cons.prems by (simp add: handles_ok_def postMessage_def)
  from Cons.IH[OF this] show ?case by (simp add: case_prod_beta)
qed

lemma handles_ok_unloadModel:
  "handles_ok st \<Longrightarrow> handles_ok (unloadModel modelId st)"
  by (auto simp: handles_ok_def unloadModel_def postMessage_def Let_def delete_conv'
        split: option.splits if_splits)

lemma handles_ok_fold_unload:
  "handles_ok st \<Longrightarrow> handles_ok (fold unloadModel ms st)"
  by (induction ms arbitrary: st) (simp_all add: handles_ok_unloadModel)

lemma handles_ok_step:
  "handles_ok st \<Longrightarrow> handles_ok (step a st)"
  by (cases a)
     (simp_all add: handles_ok_initModel handles_ok_generate handles_ok_abort
        handles_ok_fold_post handles_ok_unloadModel handles_ok_fold_unload
        handles_ok_handleWorkerMessage handles_ok_worker_onerror handles_ok_checkReady
        abortAll_def unloadAll_def worker_onmessage_def)

lemma handles_ok_run:
  "handles_ok (run acts new_manager)"
proof -
  have "handles_ok st \<Longrightarrow> handles_ok (fold step acts st)" for st
    by (induction acts arbitrary: st) (simp_all add: handles_ok_step)
  moreover have "handles_ok new_manager" by (simp add: handles_ok_def new_manager_def)
  ultimately show ?thesis by (simp add: run_def)
qed

lemma initModel_fresh:
  assumes "modelId \<notin> readyModels st" and "modelId \<notin> loadingModels st"
  shows "initModel Constructed modelId st =
     (length (promises st),
      st\<lparr>loadingModels := insert modelId (loadingModels st),
         promises := promises st @ [Pending],
         created := created st @ [(modelId, length (promises st))],
         workers := AList.update modelId (length (created st)) (workers st),
         callbacks := (callbacks st)
           (modelId \<mapsto> \<lparr>init_promise = Some (length (promises st)), gen_promise = None\<rparr>)\<rparr>)"
  using assms by (simp add: initModel_def new_promise_def)

lemma initModel_loading:
  assumes "modelId \<notin> readyModels st" and "modelId \<in> loadingModels st"
  shows "initModel env modelId st =
     (length (promises st),
      st\<lparr>promises := promises st @ [Pending],
         intervals := (intervals st)(length (promises st) \<mapsto> modelId)\<rparr>)"
  using assms by (simp add: initModel_def new_promise_def)

text \<open>
  Claim C5, amended. Take any reachable manager in which the model is neither ready
  nor loading, call \<open>initModel\<close> for it (a worker is created) and call \<open>initModel\<close> again
  before any worker event. Exactly one worker has been created, both promises are
  pending, and the second call has only started a 100 ms poll of the registry, which
  leaves its promise pending while the model is loading. If the worker then reports
  \<open>ready\<close>, the first promise is resolved and the next poll resolves the second; if it
  reports \<open>error\<close>, or its \<open>onerror\<close> handler runs, the first promise is rejected and the
  next poll rejects the second. That the two calls settle alike is proved for a poll
  that directly follows the load's outcome. And \<open>initModel\<close> for a model that is ready
  returns a resolved promise without creating a worker or posting a message.
\<close>

theorem initModel_while_loading:
  assumes "modelId \<notin> readyModels (run acts new_manager)"
    and "modelId \<notin> loadingModels (run acts new_manager)"
  shows "let st = run acts new_manager;
             w = length (created st);
             (p1, st1) = initModel Constructed modelId st;
             (p2, st2) = initModel env modelId st1
         in created st2 = created st @ [(modelId, p1)] \<and>
            p1 \<noteq> p2 \<and>
            promises st2 ! p1 = Pending \<and> promises st2 ! p2 = Pending \<and>
            promises (checkReady p2 st2) ! p2 = Pending \<and>
            promises (checkReady p2 (worker_onmessage w (Ready model device) st2)) ! p1
              = Resolved Undefined \<and>
            promises (checkReady p2 (worker_onmessage w (Ready model device) st2)) ! p2
              = Resolved Undefined \<and>
            promises (checkReady p2 (worker_onmessage w (Error message) st2)) ! p1
              = Rejected message \<and>
            promises (checkReady p2 (worker_onmessage w (Error message) st2)) ! p2
              = Rejected ''Model loading failed'' \<and>
            promises (checkReady p2 (worker_onerror w message st2)) ! p1
              = Rejected (if message = []
                          then ''Worker failed to load - check console for details''
                          else message) \<and>
            promises (checkReady p2 (worker_onerror w message st2)) ! p2
              = Rejected ''Model loading failed'' \<and>
            (\<forall>ready. modelId \<in> readyModels ready \<longrightarrow>
               promises (snd (initModel env modelId ready)) ! fst (initModel env modelId ready)
                 = Resolved Undefined \<and>
               created (snd (initModel env modelId ready)) = created ready \<and>
               workers (snd (initModel env modelId ready)) = workers ready \<and>
               posted (snd (initModel env modelId ready)) = posted ready)"
proof -
  define st where "st = run acts new_manager"
  define n where "n = length (promises st)"
  define st1 where "st1 = snd (initModel Constructed modelId st)"
  define st2 where "st2 = snd (initModel env modelId st1)"
  have idle: "modelId \<notin> readyModels st" "modelId \<notin> loadingModels st"
    using assms by (simp_all add: st_def)
  have fresh: "length (created st) \<notin> terminated st"
    using handles_ok_run[of acts] by (auto simp: handles_ok_def st_def)
  have i1: "initModel Constructed modelId st = (n, st1)"
    unfolding st1_def n_def by (simp add: initModel_fresh[OF idle])
  have st1: "st1 = st\<lparr>loadingModels := insert modelId (loadingModels st),
         promises := promises st @ [Pending],
         created := created st @ [(modelId, n)],
         workers := AList.update modelId (length (created st)) (workers st),
         callbacks := (callbacks st)
           (modelId \<mapsto> \<lparr>init_promise = Some n, gen_promise = None\<rparr>)\<rparr>"
    unfolding st1_def n_def by (simp add: initModel_fresh[OF idle])
  have l1: "modelId \<notin> readyModels st1" "modelId \<in> loadingModels st1"
    using idle by (simp_all add: st1)
  have i2: "initModel env modelId st1 = (Suc n, st2)"
    unfolding st2_def initModel_loading[OF l1] by (simp add: st1 n_def)
  have st2: "st2 = st1\<lparr>promises := promises st @ [Pending, Pending],
         intervals := (intervals st)(Suc n \<mapsto> modelId)\<rparr>"
    unfolding st2_def initModel_loading[OF l1] by (simp add: st1 n_def)
  have a: "created st2 = created st @ [(modelId, n)]" by (simp add: st2 st1)
  have b: "promises st2 ! n = Pending" "promises st2 ! Suc n = Pending"
    by (simp_all add: st2 n_def nth_append)
  have c: "promises (checkReady (Suc n) st2) ! Suc n = Pending"
    using idle by (simp add: checkReady_def st2 st1 n_def nth_append)
  have d: "promises (checkReady (Suc n) (worker_onmessage (length (created st))
              (Ready model device) st2))
           = promises st @ [Resolved Undefined, Resolved Undefined]"
    using fresh
    by (simp add: checkReady_def worker_onmessage_def st2 st1 n_def nth_append
        callbacks_of_def hook_def settle_init_def settle_def list_update_append)
  have e: "promises (checkReady (Suc n) (worker_onmessage (length (created st))
              (Error message) st2))
           = promises st @ [Rejected message, Rejected ''Model loading failed'']"
    using fresh idle
    by (simp add: checkReady_def worker_onmessage_def st2 st1 n_def nth_append
        callbacks_of_def hook_def settle_init_def settle_gen_def invoke_def settle_def
        list_update_append)
  have f: "promises (checkReady (Suc n) (worker_onerror (length (created st)) message st2))
           = promises st @ [Rejected (if message = []
                                      then ''Worker failed to load - check console for details''
                                      else message),
                            Rejected ''Model loading failed'']"
    using fresh idle
    by (simp add: checkReady_def worker_onerror_def st2 st1 n_def nth_append
        hook_def settle_def list_update_append Let_def)
  have g: "promises (snd (initModel env modelId ready)) ! fst (initModel env modelId ready)
             = Resolved Undefined \<and>
           created (snd (initModel env modelId ready)) = created ready \<and>
           workers (snd (initModel env modelId ready)) = workers ready \<and>
           posted (snd (initModel env modelId ready)) = posted ready"
    if "modelId \<in> readyModels ready" for ready
    using that by (simp add: initModel_def new_promise_def hook_def)
  have nth: "(promises st @ [x, y]) ! n = x" "(promises st @ [x, y]) ! Suc n = y" for x y
    by (simp_all add: n_def nth_append)
  show ?thesis
    unfolding Let_def st_def[symmetric] i1 prod.case i2
    using a b c g by (auto simp: d e f nth)
qed

theorem initModel_while_loading_witness:
  "''m1'' \<notin> readyModels (run [] new_manager) \<and>
   ''m1'' \<notin> loadingModels (run [] new_manager) \<and>
   length (created (run [InitModel Constructed ''m1'', InitModel Constructed ''m1'']
                      new_manager)) = 1 \<and>
   promises (run [InitModel Constructed ''m1'', InitModel Constructed ''m1'',
                  WorkerMessage 0 (Ready ''m1'' (Some ''wasm'')), IntervalTick 1] new_manager)
     = [Resolved Undefined, Resolved Undefined] \<and>
   promises (run [InitModel Constructed ''m1'', InitModel Constructed ''m1'',
                  WorkerMessage 0 (Error ''out of memory''), IntervalTick 1] new_manager)
     = [Rejected ''out of memory'', Rejected ''Model loading failed'']"
proof -
  have h1: "''m1'' \<notin> readyModels (run [] new_manager)"
    and h2: "''m1'' \<notin> loadingModels (run [] new_manager)"
    by (simp_all add: run_def new_manager_def)
  have i1: "initModel Constructed ''m1'' (run [] new_manager)
            = (0, snd (initModel Constructed ''m1'' new_manager))"
    by (simp add: run_def new_manager_def initModel_def new_promise_def)
  have i2: "initModel Constructed ''m1'' (snd (initModel Constructed ''m1'' new_manager))
            = (1, run [InitModel Constructed ''m1'', InitModel Constructed ''m1''] new_manager)"
    by (simp add: run_def new_manager_def initModel_def new_promise_def)
  have c0: "length (created (run [] new_manager)) = 0"
    by (simp add: run_def new_manager_def)
  note t = initModel_while_loading[OF h1 h2, of Constructed "''m1''" "Some ''wasm''"
      "''out of memory''", unfolded Let_def i1 prod.case i2 c0]
  have r: "run [InitModel Constructed ''m1'', InitModel Constructed ''m1'', WorkerMessage 0 ev,
                IntervalTick 1] new_manager
           = checkReady 1 (worker_onmessage 0 ev
               (run [InitModel Constructed ''m1'', InitModel Constructed ''m1''] new_manager))"
    for ev by (simp add: run_def)
  have len: "length (promises (run [InitModel Constructed ''m1'', InitModel Constructed ''m1'',
                WorkerMessage 0 ev, IntervalTick 1] new_manager)) = 2" for ev
    by (cases ev) (simp_all add: run_def new_manager_def manager_defs Let_def)
  have two: "xs = [x, y]" if "length xs = 2" "xs ! 0 = x" "xs ! Suc 0 = y"
    for xs :: "promise list" and x y
    using that by (cases xs; cases "tl xs") auto
  have cr: "length (created (run [InitModel Constructed ''m1'', InitModel Constructed ''m1'']
                      new_manager)) = 1"
    using t by (simp add: run_def new_manager_def)
  have t1: "promises (checkReady 1 (worker_onmessage 0 (Ready ''m1'' (Some ''wasm''))
               (run [InitModel Constructed ''m1'', InitModel Constructed ''m1''] new_manager)))
             ! 0 = Resolved Undefined"
    and t2: "promises (checkReady 1 (worker_onmessage 0 (Ready ''m1'' (Some ''wasm''))
               (run [InitModel Constructed ''m1'', InitModel Constructed ''m1''] new_manager)))
             ! Suc 0 = Resolved Undefined"
    and t3: "promises (checkReady 1 (worker_onmessage 0 (Error ''out of memory'')
               (run [InitModel Constructed ''m1'', InitModel Constructed ''m1''] new_manager)))
             ! 0 = Rejected ''out of memory''"
    and t4: "promises (checkReady 1 (worker_onmessage 0 (Error ''out of memory'')
               (run [InitModel Constructed ''m1'', InitModel Constructed ''m1''] new_manager)))
             ! Suc 0 = Rejected ''Model loading failed''"
    using t by simp_all
  have a: "promises (run [InitModel Constructed ''m1'', InitModel Constructed ''m1'',
                  WorkerMessage 0 (Ready ''m1'' (Some ''wasm'')), IntervalTick 1] new_manager)
     = [Resolved Undefined, Resolved Undefined]"
    using len[of "Ready ''m1'' (Some ''wasm'')"] t1 t2 unfolding r by (rule two)
  have b: "promises (run [InitModel Constructed ''m1'', InitModel Constructed ''m1'',
                  WorkerMessage 0 (Error ''out of memory''), IntervalTick 1] new_manager)
     = [Rejected ''out of memory'', Rejected ''Model loading failed'']"
    using len[of "Error ''out of memory''"] t3 t4 unfolding r by (rule two)
  show ?thesis using h1 h2 cr a b by simp
qed

section \<open>Properties of the generation supervisor\<close>

lemmas supervisor_defs =
  generateSingleResponse_def resetTimeout_def clearTimeout_def timeout_fires_def
  catch_block_def after_await_def onToken_def onComplete_def TIMEOUT_MS_def

text \<open>
  Claim C3, as stated, fails in its last part: when the watchdog has fired and the
  generation then ends with an \<open>error\<close> event, the wrapper reports that error's
  message, not the timeout message.
\<close>

theorem timeout_then_error_reports_error:
  "timedOut (supervised [Elapse 45000, Callback (OnError ''device lost'')]
               (generateSingleResponse ''m1'' 0)) \<and>
   abort_calls (supervised [Elapse 45000, Callback (OnError ''device lost'')]
                  (generateSingleResponse ''m1'' 0)) = [''m1''] \<and>
   outcome (supervised [Elapse 45000, Callback (OnError ''device lost'')]
              (generateSingleResponse ''m1'' 0)) = Returned (Some ''device lost'') \<and>
   outcome (supervised [Elapse 45000, Callback (OnError ''device lost'')]
              (generateSingleResponse ''m1'' 0)) \<noteq> Returned (Some timeout_message)"
  by (simp add: supervised_def supervisor_defs timeout_message_def)

text \<open>
  Claim C3, amended. The call arms the inactivity timer for 45 seconds at its start
  and again on every token event (a token that trips the repetition guard cancels it
  instead). While the deadline has not been reached, the passing of time changes
  nothing; when it is reached with no token in between, the supervisor sets
  \<open>timedOut\<close>, issues exactly one abort for its model and has no timer pending, so
  that no further abort follows however much time passes. When the promise of
  \<open>generate\<close> is then resolved, by \<open>aborted\<close> or by \<open>complete\<close>, the wrapper reports
  \<open>Generation timed out - model stopped responding\<close>. That differs from a stop asked
  by the user, which resolves the promise with neither flag set and reports nothing,
  and from a generation error, whose own message is reported whenever the promise is
  rejected.
\<close>

theorem watchdog_behaviour:
  "timer (generateSingleResponse m now) = Some (now + TIMEOUT_MS) \<and>
   (\<not> isRepetitive accumulated \<longrightarrow>
      timer (supervise (Callback (OnToken token accumulated)) s) = Some (clock s + TIMEOUT_MS)) \<and>
   (isRepetitive accumulated \<longrightarrow>
      timer (supervise (Callback (OnToken token accumulated)) s) = None) \<and>
   (timer s = Some deadline \<and> clock s + n < deadline \<longrightarrow>
      supervise (Elapse n) s = s\<lparr>clock := clock s + n\<rparr>) \<and>
   (timer s = Some deadline \<and> deadline \<le> clock s + n \<longrightarrow>
      timedOut (supervise (Elapse n) s) \<and>
      timer (supervise (Elapse n) s) = None \<and>
      abort_calls (supervise (Elapse n) s) = abort_calls s @ [sup_model s] \<and>
      abort_calls (supervise (Elapse k) (supervise (Elapse n) s))
        = abort_calls s @ [sup_model s]) \<and>
   (outcome s = Running \<and> timedOut s \<longrightarrow>
      outcome (supervise (Callback OnAborted) s) = Returned (Some timeout_message) \<and>
      outcome (supervise (Callback (OnComplete c model)) s) = Returned (Some timeout_message)) \<and>
   (outcome s = Running \<and> timer s = Some deadline \<and> deadline \<le> clock s + n \<longrightarrow>
      outcome (supervised [Elapse n, Callback OnAborted] s) = Returned (Some timeout_message) \<and>
      abort_calls (supervised [Elapse n, Callback OnAborted] s)
        = abort_calls s @ [sup_model s]) \<and>
   (outcome s = Running \<and> \<not> timedOut s \<and> \<not> repetitionDetected s \<longrightarrow>
      outcome (supervise (Callback OnAborted) s) = Returned None) \<and>
   (outcome s = Running \<longrightarrow>
      outcome (supervise (Callback (OnError message)) s)
        = Returned (Some (if message = [] then ''Generation failed'' else message))) \<and>
   timeout_message \<noteq> repetition_message \<and> timeout_message \<noteq> ''Generation failed''"
proof -
  have a: "timer (generateSingleResponse m now) = Some (now + TIMEOUT_MS)"
    by (simp add: generateSingleResponse_def resetTimeout_def)
  have b: "\<not> isRepetitive accumulated \<longrightarrow>
      timer (supervise (Callback (OnToken token accumulated)) s) = Some (clock s + TIMEOUT_MS)"
    by (simp add: onToken_def resetTimeout_def)
  have b': "isRepetitive accumulated \<longrightarrow>
      timer (supervise (Callback (OnToken token accumulated)) s) = None"
    by (simp add: onToken_def resetTimeout_def clearTimeout_def)
  have c: "timer s = Some deadline \<and> clock s + n < deadline \<longrightarrow>
      supervise (Elapse n) s = s\<lparr>clock := clock s + n\<rparr>"
    by simp
  have d: "timer s = Some deadline \<and> deadline \<le> clock s + n \<longrightarrow>
      timedOut (supervise (Elapse n) s) \<and>
      timer (supervise (Elapse n) s) = None \<and>
      abort_calls (supervise (Elapse n) s) = abort_calls s @ [sup_model s] \<and>
      abort_calls (supervise (Elapse k) (supervise (Elapse n) s))
        = abort_calls s @ [sup_model s]"
    by (simp add: timeout_fires_def)
  have e: "outcome s = Running \<and> timedOut s \<longrightarrow>
      outcome (supervise (Callback OnAborted) s) = Returned (Some timeout_message) \<and>
      outcome (supervise (Callback (OnComplete c model)) s) = Returned (Some timeout_message)"
    by (simp add: after_await_def catch_block_def clearTimeout_def onComplete_def
        timeout_message_def)
  have f: "outcome s = Running \<and> timer s = Some deadline \<and> deadline \<le> clock s + n \<longrightarrow>
      outcome (supervised [Elapse n, Callback OnAborted] s) = Returned (Some timeout_message) \<and>
      abort_calls (supervised [Elapse n, Callback OnAborted] s)
        = abort_calls s @ [sup_model s]"
    by (simp add: supervised_def timeout_fires_def after_await_def catch_block_def
        clearTimeout_def timeout_message_def)
  have g: "outcome s = Running \<and> \<not> timedOut s \<and> \<not> repetitionDetected s \<longrightarrow>
      outcome (supervise (Callback OnAborted) s) = Returned None"
    by (simp add: after_await_def)
  have h: "outcome s = Running \<longrightarrow>
      outcome (supervise (Callback (OnError message)) s)
        = Returned (Some (if message = [] then ''Generation failed'' else message))"
    by (simp add: catch_block_def clearTimeout_def)
  have i: "timeout_message \<noteq> repetition_message \<and> timeout_message \<noteq> ''Generation failed''"
    by (simp add: timeout_message_def repetition_message_def)
  show ?thesis using a b b' c d e f g h i by blast
qed

theorem watchdog_behaviour_witness:
  "\<not> isRepetitive (ascii ''Hi'') \<and>
   outcome (generateSingleResponse ''m1'' 0) = Running \<and>
   timer (supervise (Callback (OnToken (ascii ''Hi'') (ascii ''Hi'')))
            (supervise (Elapse 1000) (generateSingleResponse ''m1'' 0))) = Some 46000 \<and>
   timer (generateSingleResponse ''m1'' 0) = Some 45000 \<and> 45000 \<le> (0::nat) + 45000 \<and>
   outcome (supervised [Elapse 45000, Callback OnAborted] (generateSingleResponse ''m1'' 0))
     = Returned (Some ''Generation timed out - model stopped responding'') \<and>
   abort_calls (supervised [Elapse 45000, Callback OnAborted] (generateSingleResponse ''m1'' 0))
     = [''m1'']"
proof -
  have nr: "\<not> isRepetitive (ascii ''Hi'')"
    by (simp add: isRepetitive_def minPatternLen_def maxPatternLen_def ascii_def upt_rec)
  have run: "outcome (generateSingleResponse ''m1'' 0) = Running"
    and tm: "timer (generateSingleResponse ''m1'' 0) = Some 45000"
    and ck: "clock (generateSingleResponse ''m1'' 0) = 0"
    and md: "sup_model (generateSingleResponse ''m1'' 0) = ''m1''"
    and ab: "abort_calls (generateSingleResponse ''m1'' 0) = []"
    by (simp_all add: supervisor_defs)
  have ck1: "clock (supervise (Elapse 1000) (generateSingleResponse ''m1'' 0)) = 1000"
    by (simp add: supervisor_defs)
  have "\<not> isRepetitive (ascii ''Hi'') \<longrightarrow>
      timer (supervise (Callback (OnToken (ascii ''Hi'') (ascii ''Hi'')))
               (supervise (Elapse 1000) (generateSingleResponse ''m1'' 0)))
        = Some (clock (supervise (Elapse 1000) (generateSingleResponse ''m1'' 0)) + TIMEOUT_MS)"
    using watchdog_behaviour[of "''m1''" 0 "ascii ''Hi''" "ascii ''Hi''"
      "supervise (Elapse 1000) (generateSingleResponse ''m1'' 0)"] by blast
  with nr have "timer (supervise (Callback (OnToken (ascii ''Hi'') (ascii ''Hi'')))
               (supervise (Elapse 1000) (generateSingleResponse ''m1'' 0)))
        = Some (clock (supervise (Elapse 1000) (generateSingleResponse ''m1'' 0)) + TIMEOUT_MS)"
    by (rule rev_mp)
  then have t1: "timer (supervise (Callback (OnToken (ascii ''Hi'') (ascii ''Hi'')))
            (supervise (Elapse 1000) (generateSingleResponse ''m1'' 0))) = Some 46000"
    unfolding ck1 TIMEOUT_MS_def by simp
  have "outcome (generateSingleResponse ''m1'' 0) = Running \<and>
        timer (generateSingleResponse ''m1'' 0) = Some 45000 \<and>
        45000 \<le> clock (generateSingleResponse ''m1'' 0) + 45000 \<longrightarrow>
      outcome (supervised [Elapse 45000, Callback OnAborted] (generateSingleResponse ''m1'' 0))
        = Returned (Some timeout_message) \<and>
      abort_calls (supervised [Elapse 45000, Callback OnAborted] (generateSingleResponse ''m1'' 0))
        = abort_calls (generateSingleResponse ''m1'' 0) @ [sup_model (generateSingleResponse ''m1'' 0)]"
    using watchdog_behaviour[of "''m1''" 0 "ascii ''Hi''" "ascii ''Hi''"
      "generateSingleResponse ''m1'' 0" 45000 45000] by blast
  moreover have "outcome (generateSingleResponse ''m1'' 0) = Running \<and>
        timer (generateSingleResponse ''m1'' 0) = Some 45000 \<and>
        45000 \<le> clock (generateSingleResponse ''m1'' 0) + 45000"
    using run tm ck by simp
  ultimately have "outcome (supervised [Elapse 45000, Callback OnAborted] (generateSingleResponse ''m1'' 0))
        = Returned (Some timeout_message) \<and>
      abort_calls (supervised [Elapse 45000, Callback OnAborted] (generateSingleResponse ''m1'' 0))
        = abort_calls (generateSingleResponse ''m1'' 0) @ [sup_model (generateSingleResponse ''m1'' 0)]"
    by (rule mp)
  then have t2: "outcome (supervised [Elapse 45000, Callback OnAborted] (generateSingleResponse ''m1'' 0))
     = Returned (Some ''Generation timed out - model stopped responding'')"
    and t3: "abort_calls (supervised [Elapse 45000, Callback OnAborted]
               (generateSingleResponse ''m1'' 0)) = [''m1'']"
    unfolding md ab timeout_message_def by simp_all
  show ?thesis using nr run tm t1 t2 t3 by simp
qed

section \<open>Properties of dual generation\<close>

lemma supervise_model [simp]: "sup_model (supervise x s) = sup_model s"
  by (induction x s rule: supervise.induct)
     (simp_all add: Let_def timeout_fires_def onToken_def resetTimeout_def clearTimeout_def
        onComplete_def after_await_def catch_block_def split: option.splits)





lemma supervised_snoc: "supervised (xs @ [x]) s = supervise x (supervised xs s)"
  by (simp add: supervised_def)

lemma supervised_model [simp]: "sup_model (supervised xs s) = sup_model s"
  by (induction xs rule: rev_induct) (simp_all add: supervised_snoc, simp add: supervised_def)











end
